theory Spec2Isabelle
  imports Main "HOL-Library.Word"
begin

section \<open>Data model of \<^verbatim>\<open>fan5345_bl.c\<close>\<close>

text \<open>
  The driver's integers are C \<^verbatim>\<open>int\<close> and \<^verbatim>\<open>unsigned int\<close>: 32-bit words. Signed
  comparisons of the source are \<open>\<le>s\<close> and \<open><s\<close>, subtraction wraps (the kernel is built
  with wrapping signed arithmetic).
\<close>

type_synonym c_int = "32 word"
type_synonym c_uint = "32 word"

definition NUM_STEPS :: c_int where
  "NUM_STEPS = 32"

definition START_STEP :: c_int where
  "START_STEP = 32"

definition MIN_STEP :: c_int where
  "MIN_STEP = 1"

text \<open>\<^verbatim>\<open>#define DIR(x) (x--)\<close>: the value stored back into \<^verbatim>\<open>x\<close>.\<close>

definition DIR :: "c_int \<Rightarrow> c_int" where
  "DIR x = x - 1"

text \<open>
  What the driver does to the outside world, in program order: a write to the level
  GPIO (\<^verbatim>\<open>gpiod_set_value_cansleep\<close>), a busy wait of some milliseconds
  (\<^verbatim>\<open>mdelay\<close>) or of some nanoseconds (\<^verbatim>\<open>ndelay\<close>).
\<close>

datatype gpio_event = GpioSet bool | Mdelay nat | Ndelay nat

text \<open>
  One record for \<^verbatim>\<open>struct backlight_device\<close> together with the
  \<^verbatim>\<open>struct fan5345_backlight\<close> that \<^verbatim>\<open>bl_get_data\<close> returns for it:
  \<open>brightness\<close> and \<open>max_brightness\<close> are \<^verbatim>\<open>bl->props.brightness\<close> and
  \<^verbatim>\<open>bl->props.max_brightness\<close>, \<open>cur_level\<close> is \<^verbatim>\<open>fanbl->cur_level\<close>, and
  \<open>level_gpio\<close> is the history of the line behind \<^verbatim>\<open>fanbl->level_gpio\<close>.
  The fields \<^verbatim>\<open>props.type\<close>, \<^verbatim>\<open>props.power\<close> and \<^verbatim>\<open>props.state\<close> are written by
  the driver but read by none of its functions; they are left out.
\<close>

record backlight_device =
  brightness :: c_int
  max_brightness :: c_int
  cur_level :: c_int
  level_gpio :: "gpio_event list"

section \<open>The pulse protocol\<close>

text \<open>\<^verbatim>\<open>fan5345_disable\<close>, lines 43-51.\<close>

definition fan5345_disable :: "backlight_device \<Rightarrow> backlight_device" where
  "fan5345_disable bl =
     bl\<lparr>cur_level := 0, level_gpio := level_gpio bl @ [GpioSet False, Mdelay 1]\<rparr>"

text \<open>The four hardware actions of one loop iteration, lines 63-68.\<close>

definition pulse :: "gpio_event list" where
  "pulse = [GpioSet False, Ndelay 500, GpioSet True, Ndelay 500]"

text \<open>Lines 70-74: \<^verbatim>\<open>DIR(cur_level)\<close>, then the roll over.\<close>

definition roll_over :: "c_int \<Rightarrow> c_int" where
  "roll_over c = (let c' = DIR c in if c' \<le>s 0 then NUM_STEPS else c')"

text \<open>The body of the \<^verbatim>\<open>while\<close> loop of \<^verbatim>\<open>fan5345_set_level\<close>, lines 62-74.\<close>

definition set_level_body :: "backlight_device \<Rightarrow> backlight_device" where
  "set_level_body bl =
     bl\<lparr>cur_level := roll_over (cur_level bl), level_gpio := level_gpio bl @ pulse\<rparr>"

text \<open>
  The \<^verbatim>\<open>while\<close> loop, lines 61-75. Nothing in the source bounds the number of
  iterations, so the loop is a partial function: \<open>None\<close> means that it never exits.
\<close>

partial_function (option) set_level_loop :: "backlight_device \<Rightarrow> backlight_device option" where
  "set_level_loop bl =
     (if cur_level bl \<noteq> brightness bl then set_level_loop (set_level_body bl) else Some bl)"

declare set_level_loop.simps [code]

text \<open>
  \<^verbatim>\<open>fan5345_set_level\<close>, lines 53-78: the returned \<^verbatim>\<open>int\<close> and the device as the call
  leaves it.
\<close>

definition fan5345_set_level :: "backlight_device \<Rightarrow> (c_int \<times> backlight_device) option" where
  "fan5345_set_level bl =
     (let bl1 = (if brightness bl <s MIN_STEP then fan5345_disable bl else bl)
      in case set_level_loop bl1 of
           None \<Rightarrow> None
         | Some bl2 \<Rightarrow> Some (0, bl2))"

text \<open>
  A call that never returns still acts on the line. The device as the first \<open>n\<close>
  iterations of the loop leave it (fewer, if the loop exits before), for the loop alone
  and for the whole of \<^verbatim>\<open>fan5345_set_level\<close>.
\<close>

fun set_level_loop_upto :: "nat \<Rightarrow> backlight_device \<Rightarrow> backlight_device" where
  "set_level_loop_upto 0 bl = bl"
| "set_level_loop_upto (Suc n) bl =
     (if cur_level bl \<noteq> brightness bl then set_level_loop_upto n (set_level_body bl) else bl)"

definition fan5345_set_level_upto :: "nat \<Rightarrow> backlight_device \<Rightarrow> backlight_device" where
  "fan5345_set_level_upto n bl =
     set_level_loop_upto n (if brightness bl <s MIN_STEP then fan5345_disable bl else bl)"

text \<open>\<^verbatim>\<open>fan5345_get_level\<close>, lines 80-83.\<close>

definition fan5345_get_level :: "backlight_device \<Rightarrow> c_int" where
  "fan5345_get_level bl = brightness bl"

section \<open>The host framework around the protocol\<close>

text \<open>
  \<^verbatim>\<open>backlight_update_status\<close> belongs to the kernel's backlight core: it calls the
  \<^verbatim>\<open>update_status\<close> operation of the device, which \<^verbatim>\<open>fan5345bl_ops\<close> (line 88) sets
  to \<^verbatim>\<open>fan5345_set_level\<close>, and returns its result.
\<close>

definition backlight_update_status :: "backlight_device \<Rightarrow> (c_int \<times> backlight_device) option" where
  "backlight_update_status bl = fan5345_set_level bl"

text \<open>
  A brightness request: the target is stored in \<^verbatim>\<open>props.brightness\<close> and the status is
  updated, as lines 150-151 and 167-168 do. The specification calls it \<^verbatim>\<open>apply(target)\<close>.
\<close>

definition apply_target :: "c_int \<Rightarrow> backlight_device \<Rightarrow> (c_int \<times> backlight_device) option" where
  "apply_target t bl = backlight_update_status (bl\<lparr>brightness := t\<rparr>)"

text \<open>A sequence of requests, each one started when the one before has returned.\<close>

fun apply_all :: "c_int list \<Rightarrow> backlight_device \<Rightarrow> backlight_device option" where
  "apply_all [] bl = Some bl"
| "apply_all (t # ts) bl =
     (case apply_target t bl of
        None \<Rightarrow> None
      | Some (r, bl') \<Rightarrow> apply_all ts bl')"

text \<open>
  Messages of \<^verbatim>\<open>dev_err\<close> and \<^verbatim>\<open>dev_info\<close>: the format string (without its final
  newline) and the arguments.
\<close>

datatype dev_msg = Dev_err string "c_int list" | Dev_info string "c_int list"

text \<open>
  What the platform answers during \<^verbatim>\<open>fan5345_probe\<close>: whether \<^verbatim>\<open>devm_kzalloc\<close>
  returns memory; the error of \<^verbatim>\<open>devm_gpiod_get\<close>, if any; the return code of
  \<^verbatim>\<open>of_property_read_u32\<close> for \<^verbatim>\<open>"default-level"\<close> with the value it stores into
  \<^verbatim>\<open>def_level\<close>; the error of \<^verbatim>\<open>devm_backlight_device_register\<close>, if any.
\<close>

record probe_env =
  kzalloc_ok :: bool
  gpiod_get_err :: "c_int option"
  of_default_level :: "c_int \<times> c_uint"
  register_err :: "c_int option"

text \<open>
  What \<^verbatim>\<open>fan5345_probe\<close> leaves behind: its return value, the messages it logged, and
  the registered device (\<open>None\<close> when no device was registered).
\<close>

record probe_result =
  ret :: c_int
  dev_log :: "dev_msg list"
  device :: "backlight_device option"

definition ENOMEM :: c_int where
  "ENOMEM = 12"

text \<open>
  \<^verbatim>\<open>fan5345_probe\<close>, lines 98-160. The line is requested with \<^verbatim>\<open>GPIOD_OUT_LOW\<close>, so
  its history starts with a write of low. The comparison of line 125 is unsigned.
\<close>

definition fan5345_probe :: "probe_env \<Rightarrow> probe_result option" where
  "fan5345_probe env =
     (if \<not> kzalloc_ok env then Some \<lparr>ret = - ENOMEM, dev_log = [], device = None\<rparr>
      else case gpiod_get_err env of
        Some e \<Rightarrow>
          Some \<lparr>ret = e, dev_log = [Dev_err ''failed to request GPIO: %d'' [e]], device = None\<rparr>
      | None \<Rightarrow>
          (case of_default_level env of (err, def_level) \<Rightarrow>
             if err \<noteq> 0
             then Some \<lparr>ret = err, dev_log = [Dev_err ''Can't parse the level property'' []],
                        device = None\<rparr>
             else
               let (log1, def_level1) =
                     (if def_level > NUM_STEPS
                      then ([Dev_info ''FAN5345 level of %d is out of range. Setting to %d.''
                               [def_level, NUM_STEPS]], NUM_STEPS)
                      else ([], def_level))
               in case register_err env of
                    Some e \<Rightarrow>
                      Some \<lparr>ret = e, dev_log = log1 @ [Dev_err ''failed to register backlight'' []],
                            device = None\<rparr>
                  | None \<Rightarrow>
                      let bl = \<lparr>brightness = 0, max_brightness = NUM_STEPS, cur_level = 0,
                                level_gpio = [GpioSet False]\<rparr>
                      in if def_level1 \<noteq> 0
                         then (case backlight_update_status (bl\<lparr>brightness := def_level1\<rparr>) of
                                 None \<Rightarrow> None
                               | Some (err', bl') \<Rightarrow>
                                   Some \<lparr>ret = err',
                                         dev_log = log1 @
                                           (if err' = 0 then [Dev_info ''Driver Initialized.'' []]
                                            else []),
                                         device = Some bl'\<rparr>)
                         else Some \<lparr>ret = err,
                                    dev_log = log1 @
                                      (if err = 0 then [Dev_info ''Driver Initialized.'' []]
                                       else []),
                                    device = Some bl\<rparr>))"

text \<open>\<^verbatim>\<open>fan5345_remove\<close>, lines 162-174: return value, messages, device.\<close>

definition fan5345_remove ::
  "backlight_device \<Rightarrow> (c_int \<times> dev_msg list \<times> backlight_device) option" where
  "fan5345_remove bl =
     (case backlight_update_status (bl\<lparr>brightness := 0\<rparr>) of
        None \<Rightarrow> None
      | Some (err, bl') \<Rightarrow>
          Some (0, (if err = 0 then [Dev_info ''Driver Unloaded.'' []] else []), bl'))"

section \<open>Vocabulary of the properties\<close>

text \<open>The hardware actions of \<open>n\<close> loop iterations in a row.\<close>

definition pulses :: "nat \<Rightarrow> gpio_event list" where
  "pulses n = concat (replicate n pulse)"

text \<open>
  The number of pulses between a believed level and a target, both within range: from
  off the first pulse leads to \<open>NUM_STEPS\<close>, from a lit level the distance is counted
  downwards around the cycle of the 32 steps.
\<close>

definition pulses_needed :: "c_int \<Rightarrow> c_int \<Rightarrow> nat" where
  "pulses_needed c t =
     (if c = 0 then Suc (nat (32 - sint t)) else nat ((sint c - sint t) mod 32))"

text \<open>
  The specification's \<^verbatim>\<open>decrement_with_wrap\<close> on mathematical integers, in its own words:
  subtract one; if the result is at most 0, replace it with \<^verbatim>\<open>MAX_STEP\<close>.
\<close>

definition MAX_STEP :: int where
  "MAX_STEP = 32"

definition decrement_with_wrap_spec :: "int \<Rightarrow> int" where
  "decrement_with_wrap_spec l = (let r = l - 1 in if r \<le> 0 then MAX_STEP else r)"

section \<open>Signed arithmetic of one step\<close>

lemma sint_DIR: "sint c \<noteq> - (2 ^ 31) \<Longrightarrow> sint (DIR c) = sint c - 1"
proof -
  assume a: "sint c \<noteq> - (2 ^ 31)"
  have "- (2 ^ 31) \<le> sint c" "sint c < 2 ^ 31"
    using sint_ge [of c] sint_lt [of c] by simp_all
  with a have "- (2 ^ 31) \<le> sint c - 1" "sint c - 1 < 2 ^ 31" by simp_all
  then have "signed_take_bit 31 (sint c - 1) = sint c - 1"
    by (rule signed_take_bit_int_eq_self)
  then show ?thesis by (simp add: DIR_def sint_word_ariths)
qed

lemma sint_roll_over:
  "sint c \<noteq> - (2 ^ 31) \<Longrightarrow> sint (roll_over c) = (if sint c - 1 \<le> 0 then 32 else sint c - 1)"
  by (simp add: roll_over_def Let_def word_sle_eq sint_DIR NUM_STEPS_def)

lemma roll_over_range:
  assumes "0 \<le> sint c" "sint c \<le> 32"
  shows "1 \<le> sint (roll_over c) \<and> sint (roll_over c) \<le> 32"
  using assms by (simp add: sint_roll_over)

lemma roll_iter_range:
  assumes "0 \<le> sint c" "sint c \<le> 32"
  shows "0 \<le> sint ((roll_over ^^ n) c) \<and> sint ((roll_over ^^ n) c) \<le> 32"
proof (induction n)
  case 0
  show ?case using assms by simp
next
  case (Suc n)
  then show ?case using roll_over_range [of "(roll_over ^^ n) c"] by simp
qed

lemma wrap_step:
  fixes x :: int
  shows "(if x mod 32 \<le> 0 then 32 else x mod 32) = (x - 1) mod 32 + 1"
proof -
  define m where "m = x mod 32"
  have m: "0 \<le> m" "m < 32" by (simp_all add: m_def)
  have "(x - 1) mod 32 = (m - 1) mod 32"
    unfolding m_def by (simp add: mod_diff_left_eq)
  also have "\<dots> = (if m \<le> 0 then 31 else m - 1)"
  proof (cases "m \<le> 0")
    case True
    with m have "m = 0" by simp
    then show ?thesis by simp
  next
    case False
    with m show ?thesis by simp
  qed
  finally show ?thesis by (simp add: m_def)
qed

lemma sint_roll_iter:
  assumes "1 \<le> sint c" "sint c \<le> 32"
  shows "sint ((roll_over ^^ n) c) = (sint c - 1 - int n) mod 32 + 1"
proof (induction n)
  case 0
  show ?case using assms by simp
next
  case (Suc n)
  define x where "x = sint c - 1 - int n"
  have m: "0 \<le> x mod 32" "x mod 32 < 32" by simp_all
  have v: "sint ((roll_over ^^ n) c) = x mod 32 + 1" using Suc by (simp add: x_def)
  have "sint ((roll_over ^^ Suc n) c) = (if x mod 32 \<le> 0 then 32 else x mod 32)"
    using m v by (simp add: sint_roll_over)
  also have "\<dots> = (x - 1) mod 32 + 1"
    by (rule wrap_step)
  also have "x - 1 = sint c - 1 - int (Suc n)"
    by (simp add: x_def)
  finally show ?case .
qed

lemma roll_over_0: "roll_over 0 = 32"
  by (simp add: roll_over_def DIR_def NUM_STEPS_def word_sle_eq)

lemma roll_iter_hit:
  assumes "1 \<le> sint c" "sint c \<le> 32" "1 \<le> sint t" "sint t \<le> 32"
  shows "(roll_over ^^ nat ((sint c - sint t) mod 32)) c = t"
proof -
  have "(sint c - 1 - (sint c - sint t) mod 32) mod 32 = (sint c - 1 - (sint c - sint t)) mod 32"
    by (simp add: mod_diff_right_eq)
  also have "\<dots> = (sint t - 1) mod 32" by simp
  also have "\<dots> = sint t - 1" using assms by simp
  finally have "sint ((roll_over ^^ nat ((sint c - sint t) mod 32)) c) = sint t"
    using assms by (simp add: sint_roll_iter)
  then show ?thesis by (rule signed_word_eqI)
qed

lemma roll_iter_miss:
  assumes "1 \<le> sint c" "sint c \<le> 32" "1 \<le> sint t" "sint t \<le> 32"
    and "k < nat ((sint c - sint t) mod 32)"
  shows "(roll_over ^^ k) c \<noteq> t"
proof
  assume "(roll_over ^^ k) c = t"
  then have "sint ((roll_over ^^ k) c) = sint t" by simp
  then have e: "(sint c - 1 - int k) mod 32 = sint t - 1"
    using assms by (simp add: sint_roll_iter)
  have k: "int k < (sint c - sint t) mod 32" using assms(5) by simp
  then have k32: "int k < 32"
    by (rule less_trans) simp
  have "(sint c - 1 - int k) mod 32 = (sint t - 1) mod 32"
    using e assms by simp
  then have "32 dvd (sint c - 1 - int k) - (sint t - 1)"
    by (simp only: mod_eq_dvd_iff)
  moreover have "(sint c - 1 - int k) - (sint t - 1) = (sint c - sint t) - int k"
    by simp
  ultimately have "32 dvd (sint c - sint t) - int k"
    by simp
  then have "(sint c - sint t) mod 32 = int k mod 32"
    by (simp only: mod_eq_dvd_iff)
  also have "\<dots> = int k" using k32 by simp
  finally show False using k by simp
qed

section \<open>The loop: unrolling, partial correctness, divergence\<close>

lemma pulses_Suc: "pulses (Suc n) = pulses n @ pulse"
proof -
  have "replicate (Suc n) pulse = replicate n pulse @ [pulse]"
    by (simp add: replicate_append_same)
  then show ?thesis unfolding pulses_def by (simp del: replicate_Suc)
qed

lemma pulses_0: "pulses 0 = []"
  by (simp add: pulses_def)

lemma body_iter_fields:
  "brightness ((set_level_body ^^ n) bl) = brightness bl"
  "max_brightness ((set_level_body ^^ n) bl) = max_brightness bl"
  "cur_level ((set_level_body ^^ n) bl) = (roll_over ^^ n) (cur_level bl)"
  "level_gpio ((set_level_body ^^ n) bl) = level_gpio bl @ pulses n"
  by (induction n) (simp_all add: set_level_body_def pulses_Suc pulses_0)

lemma body_iter_eq:
  "(set_level_body ^^ n) bl =
     bl\<lparr>cur_level := (roll_over ^^ n) (cur_level bl), level_gpio := level_gpio bl @ pulses n\<rparr>"
  by (induction n) (simp_all add: set_level_body_def pulses_Suc pulses_0)

lemma loop_exit: "cur_level bl = brightness bl \<Longrightarrow> set_level_loop bl = Some bl"
  by (subst set_level_loop.simps) simp

lemma loop_step:
  "cur_level bl \<noteq> brightness bl \<Longrightarrow> set_level_loop bl = set_level_loop (set_level_body bl)"
  by (subst set_level_loop.simps) simp

lemma loop_unroll:
  "(\<And>k. k < n \<Longrightarrow> (roll_over ^^ k) (cur_level bl) \<noteq> brightness bl) \<Longrightarrow>
   set_level_loop bl = set_level_loop ((set_level_body ^^ n) bl)"
proof (induction n)
  case 0
  show ?case by simp
next
  case (Suc n)
  have "set_level_loop bl = set_level_loop ((set_level_body ^^ n) bl)"
    using Suc by simp
  also have "\<dots> = set_level_loop (set_level_body ((set_level_body ^^ n) bl))"
    using Suc.prems [of n] by (intro loop_step) (simp add: body_iter_fields)
  finally show ?case by simp
qed

lemma loop_total:
  assumes "\<And>k. k < n \<Longrightarrow> (roll_over ^^ k) (cur_level bl) \<noteq> brightness bl"
    and "(roll_over ^^ n) (cur_level bl) = brightness bl"
  shows "set_level_loop bl =
     Some (bl\<lparr>cur_level := brightness bl, level_gpio := level_gpio bl @ pulses n\<rparr>)"
proof -
  have "set_level_loop bl = set_level_loop ((set_level_body ^^ n) bl)"
    using assms(1) by (rule loop_unroll)
  also have "\<dots> = Some ((set_level_body ^^ n) bl)"
    using assms(2) by (intro loop_exit) (simp add: body_iter_fields)
  finally show ?thesis using assms(2) by (simp add: body_iter_eq)
qed

lemma loop_partial:
  "set_level_loop bl = Some bl' \<Longrightarrow>
   \<exists>n. bl' = (set_level_body ^^ n) bl \<and> (roll_over ^^ n) (cur_level bl) = brightness bl \<and>
       (\<forall>k<n. (roll_over ^^ k) (cur_level bl) \<noteq> brightness bl)"
proof (induction rule: set_level_loop.raw_induct [rotated 1, consumes 1])
  case (1 loop bl bl')
  show ?case
  proof (cases "cur_level bl = brightness bl")
    case True
    with 1(2) have "bl' = bl" by simp
    with True show ?thesis by (intro exI [of _ 0]) simp
  next
    case False
    with 1(2) have "loop (set_level_body bl) = Some bl'" by simp
    from 1(1) [OF this] obtain n where n: "bl' = (set_level_body ^^ n) (set_level_body bl)"
      "(roll_over ^^ n) (cur_level (set_level_body bl)) = brightness (set_level_body bl)"
      "\<forall>k<n. (roll_over ^^ k) (cur_level (set_level_body bl)) \<noteq> brightness (set_level_body bl)"
      by blast
    have "\<forall>k<Suc n. (roll_over ^^ k) (cur_level bl) \<noteq> brightness bl"
    proof (intro allI impI)
      fix k assume "k < Suc n"
      show "(roll_over ^^ k) (cur_level bl) \<noteq> brightness bl"
      proof (cases k)
        case 0
        with False show ?thesis by simp
      next
        case (Suc j)
        with \<open>k < Suc n\<close> n(3) show ?thesis
          by (simp add: set_level_body_def funpow_swap1)
      qed
    qed
    moreover have "bl' = (set_level_body ^^ Suc n) bl"
      using n(1) by (simp add: funpow_swap1)
    moreover have "(roll_over ^^ Suc n) (cur_level bl) = brightness bl"
      using n(2) by (simp add: set_level_body_def funpow_swap1)
    ultimately show ?thesis by blast
  qed
qed

lemma loop_diverges:
  "(\<And>n. (roll_over ^^ n) (cur_level bl) \<noteq> brightness bl) \<Longrightarrow> set_level_loop bl = None"
  using loop_partial [of bl] by (cases "set_level_loop bl") auto

section \<open>The loop on levels within range\<close>

lemma loop_from_lit:
  assumes "1 \<le> sint (cur_level bl)" "sint (cur_level bl) \<le> 32"
    and "1 \<le> sint (brightness bl)" "sint (brightness bl) \<le> 32"
  shows "set_level_loop bl =
     Some (bl\<lparr>cur_level := brightness bl,
              level_gpio := level_gpio bl @
                pulses (nat ((sint (cur_level bl) - sint (brightness bl)) mod 32))\<rparr>)"
  using assms by (intro loop_total roll_iter_miss roll_iter_hit)

lemma loop_from_off:
  assumes "cur_level bl = 0"
    and "1 \<le> sint (brightness bl)" "sint (brightness bl) \<le> 32"
  shows "set_level_loop bl =
     Some (bl\<lparr>cur_level := brightness bl,
              level_gpio := level_gpio bl @ pulses (Suc (nat (32 - sint (brightness bl))))\<rparr>)"
proof (rule loop_total)
  let ?t = "brightness bl"
  have s32: "1 \<le> sint (32 :: c_int)" "sint (32 :: c_int) \<le> 32" by simp_all
  have e32: "sint (32 :: c_int) = 32" by simp
  have m: "(32 - sint ?t) mod 32 = 32 - sint ?t"
    using assms by (intro mod_pos_pos_trivial) simp_all
  have shift: "(roll_over ^^ Suc j) (cur_level bl) = (roll_over ^^ j) 32" for j
    using assms(1) by (simp add: funpow_swap1 roll_over_0)
  have "(roll_over ^^ nat (32 - sint ?t)) 32 = ?t"
    using roll_iter_hit [OF s32 assms(2,3)] unfolding e32 m .
  then show "(roll_over ^^ Suc (nat (32 - sint ?t))) (cur_level bl) = ?t"
    by (simp only: shift)
  fix k assume k: "k < Suc (nat (32 - sint ?t))"
  show "(roll_over ^^ k) (cur_level bl) \<noteq> ?t"
  proof (cases k)
    case 0
    with assms show ?thesis by auto
  next
    case (Suc j)
    with k have "j < nat (32 - sint ?t)" by simp
    then have "j < nat ((sint (32 :: c_int) - sint ?t) mod 32)"
      unfolding e32 m .
    from roll_iter_miss [OF s32 assms(2,3) this] show ?thesis
      unfolding Suc shift .
  qed
qed

lemma loop_in_range:
  assumes "0 \<le> sint (cur_level bl)" "sint (cur_level bl) \<le> 32"
    and "1 \<le> sint (brightness bl)" "sint (brightness bl) \<le> 32"
  shows "set_level_loop bl =
     Some (bl\<lparr>cur_level := brightness bl,
              level_gpio := level_gpio bl @
                pulses (pulses_needed (cur_level bl) (brightness bl))\<rparr>)"
proof (cases "cur_level bl = 0")
  case True
  then show ?thesis using assms(3,4) by (simp add: loop_from_off pulses_needed_def)
next
  case False
  then have "sint (cur_level bl) \<noteq> 0" by (metis signed_word_eqI sint_0)
  with assms have "1 \<le> sint (cur_level bl)" by simp
  with False assms show ?thesis by (simp add: loop_from_lit pulses_needed_def)
qed

lemma pulses_needed_le:
  assumes "0 \<le> sint c" "sint c \<le> 32" "1 \<le> sint t" "sint t \<le> 32"
  shows "pulses_needed c t \<le> 32"
proof -
  have "(sint c - sint t) mod 32 < 32" by simp
  then have "nat ((sint c - sint t) mod 32) \<le> 32" by simp
  moreover have "Suc (nat (32 - sint t)) \<le> 32" using assms by simp
  ultimately show ?thesis by (simp add: pulses_needed_def)
qed

lemma loop_out_of_range_diverges:
  assumes "0 \<le> sint (cur_level bl)" "sint (cur_level bl) \<le> 32"
    and "sint (brightness bl) < 0 \<or> 32 < sint (brightness bl)"
  shows "set_level_loop bl = None"
proof (rule loop_diverges)
  fix n
  show "(roll_over ^^ n) (cur_level bl) \<noteq> brightness bl"
    using roll_iter_range [OF assms(1,2), of n] assms(3) by auto
qed

lemma loop_invariant:
  assumes "0 \<le> sint (cur_level bl)" "sint (cur_level bl) \<le> 32"
    and "set_level_loop bl = Some bl'"
  shows "0 \<le> sint (cur_level bl') \<and> sint (cur_level bl') \<le> 32 \<and>
         cur_level bl' = brightness bl \<and> brightness bl' = brightness bl \<and>
         max_brightness bl' = max_brightness bl \<and>
         (\<exists>n. bl' = (set_level_body ^^ n) bl)"
proof -
  from loop_partial [OF assms(3)] obtain n where n: "bl' = (set_level_body ^^ n) bl"
    "(roll_over ^^ n) (cur_level bl) = brightness bl" by blast
  then show ?thesis
    using roll_iter_range [OF assms(1,2), of n] by (auto simp add: body_iter_fields)
qed

lemma set_level_off:
  assumes "brightness bl = 0"
  shows "fan5345_set_level bl =
     Some (0, bl\<lparr>cur_level := 0, level_gpio := level_gpio bl @ [GpioSet False, Mdelay 1]\<rparr>)"
  using assms
  by (simp add: fan5345_set_level_def MIN_STEP_def word_sless_alt fan5345_disable_def loop_exit)

lemma set_level_lit:
  assumes "0 \<le> sint (cur_level bl)" "sint (cur_level bl) \<le> 32"
    and "1 \<le> sint (brightness bl)" "sint (brightness bl) \<le> 32"
  shows "fan5345_set_level bl =
     Some (0, bl\<lparr>cur_level := brightness bl,
                 level_gpio := level_gpio bl @
                   pulses (pulses_needed (cur_level bl) (brightness bl))\<rparr>)"
  using assms
  by (simp add: fan5345_set_level_def MIN_STEP_def word_sless_alt loop_in_range)

section \<open>Runs cut off after a number of iterations\<close>

lemma upto_all_miss:
  "(\<And>k. k < n \<Longrightarrow> (roll_over ^^ k) (cur_level bl) \<noteq> brightness bl) \<Longrightarrow>
   set_level_loop_upto n bl = (set_level_body ^^ n) bl"
proof (induction n arbitrary: bl)
  case 0
  show ?case by simp
next
  case (Suc n)
  have g: "cur_level bl \<noteq> brightness bl" using Suc.prems [of 0] by simp
  have "set_level_loop_upto n (set_level_body bl) = (set_level_body ^^ n) (set_level_body bl)"
  proof (rule Suc.IH)
    fix k assume "k < n"
    then have "(roll_over ^^ Suc k) (cur_level bl) \<noteq> brightness bl"
      using Suc.prems [of "Suc k"] by simp
    then show "(roll_over ^^ k) (cur_level (set_level_body bl)) \<noteq> brightness (set_level_body bl)"
      by (simp add: set_level_body_def funpow_swap1)
  qed
  with g show ?case by (simp add: funpow_swap1)
qed

lemma upto_out_of_range:
  assumes "0 \<le> sint (cur_level bl)" "sint (cur_level bl) \<le> 32"
    and "sint (brightness bl) < 0 \<or> 32 < sint (brightness bl)"
  shows "set_level_loop_upto n bl =
           bl\<lparr>cur_level := (roll_over ^^ n) (cur_level bl), level_gpio := level_gpio bl @ pulses n\<rparr>"
proof -
  have "set_level_loop_upto n bl = (set_level_body ^^ n) bl"
  proof (rule upto_all_miss)
    fix k
    show "(roll_over ^^ k) (cur_level bl) \<noteq> brightness bl"
      using roll_iter_range [OF assms(1,2), of k] assms(3) by auto
  qed
  then show ?thesis by (simp add: body_iter_eq)
qed

text \<open>A loop that exits has been cut off nowhere, once the bound is large enough.\<close>

lemma loop_upto_agree:
  assumes "set_level_loop bl = Some bl'"
  shows "\<exists>n. set_level_loop_upto n bl = bl'"
proof -
  from loop_partial [OF assms] obtain n where n: "bl' = (set_level_body ^^ n) bl"
    "\<forall>k<n. (roll_over ^^ k) (cur_level bl) \<noteq> brightness bl" by blast
  from n(2) have "set_level_loop_upto n bl = (set_level_body ^^ n) bl"
    by (intro upto_all_miss) simp
  with n(1) show ?thesis by blast
qed

section \<open>Attach, requests and detach\<close>

lemma uint_le_32_sint:
  fixes d :: c_uint
  assumes "d \<le> 32"
  shows "0 \<le> sint d \<and> sint d \<le> 32 \<and> (d \<noteq> 0 \<longrightarrow> 1 \<le> sint d)"
proof -
  have u: "uint d \<le> 32" using assms by (simp add: word_le_def)
  have "(- (2 ^ 31) :: int) \<le> 0" by simp
  also have "0 \<le> uint d" by simp
  finally have lo: "- (2 ^ 31) \<le> uint d" .
  have hi: "uint d < 2 ^ 31" using u by simp
  have "signed_take_bit 31 (uint d) = uint d"
    using lo hi by (rule signed_take_bit_int_eq_self)
  then have e: "sint d = uint d" by (simp add: sint_uint)
  have "d \<noteq> 0 \<Longrightarrow> uint d \<noteq> 0" by (simp add: uint_0_iff)
  moreover have z: "0 \<le> uint d" by simp
  ultimately have "d \<noteq> 0 \<longrightarrow> 1 \<le> uint d" by linarith
  with e u show ?thesis by simp
qed

lemma probe_device:
  assumes "fan5345_probe env = Some res" "device res = Some dev"
  shows "max_brightness dev = NUM_STEPS \<and> 0 \<le> sint (brightness dev) \<and>
         sint (brightness dev) \<le> 32 \<and> cur_level dev = brightness dev \<and>
         (\<exists>n. cur_level dev = (roll_over ^^ n) 0)"
proof -
  obtain err d where od: "of_default_level env = (err, d)" by (cases "of_default_level env")
  define d1 where "d1 = (if d > NUM_STEPS then NUM_STEPS else d)"
  define bl0 where "bl0 = \<lparr>brightness = 0, max_brightness = NUM_STEPS, cur_level = 0,
                                level_gpio = [GpioSet False]\<rparr>"
  have d1: "d1 \<le> 32" by (simp add: d1_def NUM_STEPS_def not_less)
  note r1 = uint_le_32_sint [OF d1]
  show ?thesis
  proof (cases "d1 = 0")
    case True
    with assms od have "dev = bl0"
      by (auto simp add: fan5345_probe_def d1_def bl0_def Let_def
          split: if_splits option.splits)
    then show ?thesis by (auto simp add: bl0_def intro: exI [of _ 0])
  next
    case False
    with assms od obtain r where "fan5345_set_level (bl0\<lparr>brightness := d1\<rparr>) = Some (r, dev)"
      by (auto simp add: fan5345_probe_def d1_def bl0_def Let_def backlight_update_status_def
          split: if_splits option.splits)
    moreover have "fan5345_set_level (bl0\<lparr>brightness := d1\<rparr>) =
        Some (0, bl0\<lparr>brightness := d1, cur_level := d1,
                      level_gpio := [GpioSet False] @ pulses (pulses_needed 0 d1)\<rparr>)"
      using False r1 by (simp add: set_level_lit bl0_def)
    ultimately have dev: "dev = bl0\<lparr>brightness := d1, cur_level := d1,
                      level_gpio := [GpioSet False] @ pulses (pulses_needed 0 d1)\<rparr>"
      by simp
    have "set_level_loop (bl0\<lparr>brightness := d1\<rparr>) = Some dev"
      using False r1 unfolding dev by (simp add: loop_in_range bl0_def)
    from loop_partial [OF this] obtain n where "(roll_over ^^ n) 0 = d1"
      by (auto simp add: bl0_def)
    then show ?thesis using r1 by (auto simp add: dev bl0_def)
  qed
qed

lemma set_level_result:
  assumes "fan5345_set_level bl = Some (r, bl')"
  shows "r = 0 \<and> cur_level bl' = brightness bl \<and> brightness bl' = brightness bl \<and>
         max_brightness bl' = max_brightness bl \<and>
         (\<exists>n. cur_level bl' =
            (roll_over ^^ n) (if brightness bl <s MIN_STEP then 0 else cur_level bl))"
proof -
  define bl1 where "bl1 = (if brightness bl <s MIN_STEP then fan5345_disable bl else bl)"
  from assms have l: "set_level_loop bl1 = Some bl'" and r: "r = 0"
    by (auto simp add: fan5345_set_level_def bl1_def Let_def split: option.splits)
  have f: "brightness bl1 = brightness bl" "max_brightness bl1 = max_brightness bl"
    "cur_level bl1 = (if brightness bl <s MIN_STEP then 0 else cur_level bl)"
    by (simp_all add: bl1_def fan5345_disable_def)
  from loop_partial [OF l] obtain n where "bl' = (set_level_body ^^ n) bl1"
    "(roll_over ^^ n) (cur_level bl1) = brightness bl1" by blast
  then have "cur_level bl' = brightness bl1 \<and> brightness bl' = brightness bl1 \<and>
     max_brightness bl' = max_brightness bl1 \<and> cur_level bl' = (roll_over ^^ n) (cur_level bl1)"
    by (simp add: body_iter_fields)
  with r show ?thesis unfolding f by blast
qed

lemma set_level_trace:
  assumes "fan5345_set_level bl = Some (r, bl')"
  shows "\<exists>n. bl' = (set_level_body ^^ n)
                   (if brightness bl <s MIN_STEP then fan5345_disable bl else bl)"
proof -
  define bl1 where "bl1 = (if brightness bl <s MIN_STEP then fan5345_disable bl else bl)"
  from assms have "set_level_loop bl1 = Some bl'"
    by (auto simp add: fan5345_set_level_def bl1_def Let_def split: option.splits)
  from loop_partial [OF this] obtain n where "bl' = (set_level_body ^^ n) bl1" by blast
  then show ?thesis unfolding bl1_def ..
qed

lemma probe_device_trace:
  assumes "fan5345_probe env = Some res" "device res = Some dev"
  shows "\<exists>n. dev = (set_level_body ^^ n)
                   \<lparr>brightness = brightness dev, max_brightness = NUM_STEPS, cur_level = 0,
                     level_gpio = [GpioSet False]\<rparr>"
proof -
  obtain err d where od: "of_default_level env = (err, d)" by (cases "of_default_level env")
  define d1 where "d1 = (if d > NUM_STEPS then NUM_STEPS else d)"
  define bl0 where "bl0 = \<lparr>brightness = 0, max_brightness = NUM_STEPS, cur_level = 0,
                                level_gpio = [GpioSet False]\<rparr>"
  have d1: "d1 \<le> 32" by (simp add: d1_def NUM_STEPS_def not_less)
  note r1 = uint_le_32_sint [OF d1]
  show ?thesis
  proof (cases "d1 = 0")
    case True
    with assms od have "dev = bl0"
      by (auto simp add: fan5345_probe_def d1_def bl0_def Let_def
          split: if_splits option.splits)
    then have "dev = (set_level_body ^^ 0)
                   \<lparr>brightness = brightness dev, max_brightness = NUM_STEPS, cur_level = 0,
                     level_gpio = [GpioSet False]\<rparr>"
      by (simp add: bl0_def)
    then show ?thesis ..
  next
    case False
    with assms od obtain r where s: "fan5345_set_level (bl0\<lparr>brightness := d1\<rparr>) = Some (r, dev)"
      by (auto simp add: fan5345_probe_def d1_def bl0_def Let_def backlight_update_status_def
          split: if_splits option.splits)
    have nd: "\<not> d1 <s MIN_STEP"
      using False r1 by (simp add: word_sless_alt MIN_STEP_def)
    from set_level_result [OF s] have b: "brightness dev = d1" by simp
    from set_level_trace [OF s] nd obtain n where
      n: "dev = (set_level_body ^^ n) (bl0\<lparr>brightness := d1\<rparr>)" by auto
    have e: "bl0\<lparr>brightness := d1\<rparr> =
               \<lparr>brightness = brightness dev, max_brightness = NUM_STEPS, cur_level = 0,
                 level_gpio = [GpioSet False]\<rparr>"
      by (simp add: b bl0_def)
    from n show ?thesis unfolding e ..
  qed
qed

lemma set_level_keeps_range:
  assumes "0 \<le> sint (cur_level bl)" "sint (cur_level bl) \<le> 32"
    and "fan5345_set_level bl = Some (r, bl')"
  shows "0 \<le> sint (cur_level bl') \<and> sint (cur_level bl') \<le> 32"
proof -
  from set_level_result [OF assms(3)] obtain n where
    n: "cur_level bl' = (roll_over ^^ n) (if brightness bl <s MIN_STEP then 0 else cur_level bl)"
    by blast
  have "0 \<le> sint (if brightness bl <s MIN_STEP then 0 else cur_level bl) \<and>
        sint (if brightness bl <s MIN_STEP then 0 else cur_level bl) \<le> 32"
    using assms(1,2) by simp
  then show ?thesis unfolding n by (intro roll_iter_range) simp_all
qed

lemma apply_all_keeps_range:
  assumes "apply_all ts bl = Some bl'"
    and "0 \<le> sint (cur_level bl)" "sint (cur_level bl) \<le> 32"
  shows "0 \<le> sint (cur_level bl') \<and> sint (cur_level bl') \<le> 32"
  using assms
proof (induction ts arbitrary: bl)
  case Nil
  then show ?case by simp
next
  case (Cons t ts)
  from Cons.prems(1) obtain r bl1 where a: "apply_target t bl = Some (r, bl1)"
    and b: "apply_all ts bl1 = Some bl'"
    by (auto split: option.splits)
  from a have "fan5345_set_level (bl\<lparr>brightness := t\<rparr>) = Some (r, bl1)"
    by (simp add: apply_target_def backlight_update_status_def)
  with Cons.prems(2,3) have "0 \<le> sint (cur_level bl1) \<and> sint (cur_level bl1) \<le> 32"
    by (intro set_level_keeps_range [of "bl\<lparr>brightness := t\<rparr>" r bl1]) simp_all
  with Cons.IH [OF b] show ?case by simp
qed

lemma apply_target_result:
  assumes "apply_target t bl = Some (r, bl')"
  shows "r = 0" "cur_level bl' = t" "brightness bl' = t"
    "max_brightness bl' = max_brightness bl"
    "\<exists>n. cur_level bl' = (roll_over ^^ n) (if t <s MIN_STEP then 0 else cur_level bl)"
proof -
  let ?bl = "bl\<lparr>brightness := t\<rparr>"
  from assms have s: "fan5345_set_level ?bl = Some (r, bl')"
    by (simp add: apply_target_def backlight_update_status_def)
  from set_level_result [OF s] show "r = 0" "cur_level bl' = t" "brightness bl' = t"
    "max_brightness bl' = max_brightness bl" by simp_all
  from set_level_result [OF s] obtain n where
    "cur_level bl' = (roll_over ^^ n) (if brightness ?bl <s MIN_STEP then 0 else cur_level ?bl)"
    by blast
  then have "cur_level bl' = (roll_over ^^ n) (if t <s MIN_STEP then 0 else cur_level bl)"
    by simp
  then show "\<exists>n. cur_level bl' = (roll_over ^^ n) (if t <s MIN_STEP then 0 else cur_level bl)" ..
qed

lemma apply_all_snoc:
  "apply_all (ts @ [t]) bl =
     (case apply_all ts bl of
        None \<Rightarrow> None
      | Some bl1 \<Rightarrow> (case apply_target t bl1 of None \<Rightarrow> None | Some (r, bl2) \<Rightarrow> Some bl2))"
  by (induction ts arbitrary: bl) (auto split: option.splits)

lemma apply_target_in_range:
  assumes "0 \<le> sint t" "sint t \<le> 32" "0 \<le> sint (cur_level bl)" "sint (cur_level bl) \<le> 32"
  shows "\<exists>bl1. apply_target t bl = Some (0, bl1)"
proof (cases "t = 0")
  case True
  then show ?thesis
    by (simp add: apply_target_def backlight_update_status_def set_level_off)
next
  case False
  then have "sint t \<noteq> 0" by (metis signed_word_eqI sint_0)
  with assms have "1 \<le> sint t" by simp
  with assms show ?thesis
    by (simp add: apply_target_def backlight_update_status_def set_level_lit)
qed

lemma apply_all_in_range:
  assumes "\<forall>t \<in> set ts. 0 \<le> sint t \<and> sint t \<le> 32"
    and "0 \<le> sint (cur_level bl)" "sint (cur_level bl) \<le> 32"
  shows "\<exists>bl'. apply_all ts bl = Some bl'"
  using assms
proof (induction ts arbitrary: bl)
  case Nil
  show ?case by simp
next
  case (Cons t ts)
  from Cons.prems obtain bl1 where a: "apply_target t bl = Some (0, bl1)"
    using apply_target_in_range [of t bl] by auto
  from apply_target_result(2) [OF a] Cons.prems(1)
  have "0 \<le> sint (cur_level bl1)" "sint (cur_level bl1) \<le> 32" by simp_all
  with Cons.IH [of bl1] Cons.prems(1) obtain bl' where "apply_all ts bl1 = Some bl'" by auto
  with a show ?case by simp
qed

lemma remove_shuts_down:
  "fan5345_remove bl =
     Some (0, [Dev_info ''Driver Unloaded.'' []],
           bl\<lparr>brightness := 0, cur_level := 0,
              level_gpio := level_gpio bl @ [GpioSet False, Mdelay 1]\<rparr>)"
  by (simp add: fan5345_remove_def backlight_update_status_def set_level_off)

section \<open>The claims\<close>

text \<open>
  C1. For every believed level and every target in \<open>[1, 32]\<close>, \<^verbatim>\<open>apply(target)\<close> returns
  0 with the believed level equal to the target, after \<open>(start - target) mod 32\<close> pulses
  and no other action on the line, and that number is at most 32.
\<close>

theorem apply_reaches_target:
  assumes "MIN_STEP \<le>s cur_level bl" "cur_level bl \<le>s NUM_STEPS"
    and "MIN_STEP \<le>s t" "t \<le>s NUM_STEPS"
  shows "apply_target t bl =
           Some (0, bl\<lparr>brightness := t, cur_level := t,
                      level_gpio := level_gpio bl @ pulses (pulses_needed (cur_level bl) t)\<rparr>)
         \<and> pulses_needed (cur_level bl) t \<le> 32"
proof -
  have r: "1 \<le> sint (cur_level bl)" "sint (cur_level bl) \<le> 32" "1 \<le> sint t" "sint t \<le> 32"
    using assms by (simp_all add: word_sle_eq NUM_STEPS_def MIN_STEP_def)
  then have "0 \<le> sint (cur_level bl)" by simp
  with r show ?thesis
    by (simp add: apply_target_def backlight_update_status_def set_level_lit pulses_needed_le)
qed

theorem apply_reaches_target_witness:
  "MIN_STEP \<le>s (5 :: c_int) \<and> (5 :: c_int) \<le>s NUM_STEPS \<and>
   MIN_STEP \<le>s (32 :: c_int) \<and> (32 :: c_int) \<le>s NUM_STEPS \<and>
   apply_target 32 \<lparr>brightness = 5, max_brightness = 32, cur_level = 5, level_gpio = []\<rparr> =
     Some (0, \<lparr>brightness = 32, max_brightness = 32, cur_level = 32, level_gpio = pulses 5\<rparr>)"
  using apply_reaches_target
    [of "\<lparr>brightness = 5, max_brightness = 32, cur_level = 5, level_gpio = []\<rparr>" 32]
  by (simp add: word_sle_eq NUM_STEPS_def MIN_STEP_def pulses_needed_def)

text \<open>
  C2 (as amended). A target above 32 is not rejected and nothing is reported to the
  caller: \<^verbatim>\<open>fan5345_set_level\<close> has no range check. Called with the believed level in
  \<open>[0, 32]\<close> it does not return, and after \<open>n\<close> iterations of its loop it has emitted
  \<open>n\<close> pulses and stepped the believed level \<open>n\<close> times, for every \<open>n\<close>. The range is
  kept by the callers instead: every device that \<^verbatim>\<open>fan5345_probe\<close> registers has
  \<^verbatim>\<open>max_brightness\<close> 32 and a target within \<open>[0, 32]\<close>, whatever the configured
  default level is.
\<close>

theorem set_level_above_max_not_rejected:
  assumes "NUM_STEPS <s t" "0 \<le>s cur_level bl" "cur_level bl \<le>s NUM_STEPS"
  shows "apply_target t bl = None \<and>
         fan5345_set_level_upto n (bl\<lparr>brightness := t\<rparr>) =
           bl\<lparr>brightness := t, cur_level := (roll_over ^^ n) (cur_level bl),
              level_gpio := level_gpio bl @ pulses n\<rparr> \<and>
         (fan5345_probe env = Some res \<and> device res = Some dev \<longrightarrow>
            max_brightness dev = NUM_STEPS \<and> 0 \<le>s brightness dev \<and> brightness dev \<le>s NUM_STEPS)"
proof -
  have r: "0 \<le> sint (cur_level bl)" "sint (cur_level bl) \<le> 32" "32 < sint t"
    using assms by (simp_all add: word_sle_eq word_sless_alt NUM_STEPS_def)
  let ?bl = "bl\<lparr>brightness := t\<rparr>"
  have nd: "\<not> t <s MIN_STEP" using r by (simp add: word_sless_alt MIN_STEP_def)
  have "set_level_loop ?bl = None"
    using r by (intro loop_out_of_range_diverges) simp_all
  then have 1: "apply_target t bl = None"
    using nd by (simp add: apply_target_def backlight_update_status_def fan5345_set_level_def)
  have "set_level_loop_upto n ?bl =
      ?bl\<lparr>cur_level := (roll_over ^^ n) (cur_level ?bl), level_gpio := level_gpio ?bl @ pulses n\<rparr>"
    using r by (intro upto_out_of_range) simp_all
  then have 2: "fan5345_set_level_upto n ?bl =
           bl\<lparr>brightness := t, cur_level := (roll_over ^^ n) (cur_level bl),
              level_gpio := level_gpio bl @ pulses n\<rparr>"
    using nd by (simp add: fan5345_set_level_upto_def)
  have 3: "fan5345_probe env = Some res \<and> device res = Some dev \<longrightarrow>
            max_brightness dev = NUM_STEPS \<and> 0 \<le>s brightness dev \<and> brightness dev \<le>s NUM_STEPS"
    using probe_device [of env res dev] by (simp add: word_sle_eq NUM_STEPS_def)
  from 1 2 3 show ?thesis by blast
qed

theorem set_level_above_max_not_rejected_witness:
  "NUM_STEPS <s (33 :: c_int) \<and> 0 \<le>s (32 :: c_int) \<and> (32 :: c_int) \<le>s NUM_STEPS \<and>
   apply_target 33 \<lparr>brightness = 32, max_brightness = 32, cur_level = 32, level_gpio = []\<rparr> = None \<and>
   fan5345_set_level_upto 2 \<lparr>brightness = 33, max_brightness = 32, cur_level = 32, level_gpio = []\<rparr> =
     \<lparr>brightness = 33, max_brightness = 32, cur_level = 30, level_gpio = pulses 2\<rparr> \<and>
   fan5345_probe \<lparr>kzalloc_ok = True, gpiod_get_err = None, of_default_level = (0, 40),
                  register_err = None\<rparr> =
     Some \<lparr>ret = 0,
           dev_log = [Dev_info ''FAN5345 level of %d is out of range. Setting to %d.'' [40, 32],
                      Dev_info ''Driver Initialized.'' []],
           device = Some \<lparr>brightness = 32, max_brightness = 32, cur_level = 32,
                           level_gpio = [GpioSet False] @ pulse\<rparr>\<rparr> \<and>
   max_brightness \<lparr>brightness = 32, max_brightness = 32, cur_level = 32,
                   level_gpio = [GpioSet False] @ pulse\<rparr> = NUM_STEPS \<and>
   (32 :: c_int) \<le>s NUM_STEPS"
proof -
  have p: "fan5345_probe \<lparr>kzalloc_ok = True, gpiod_get_err = None, of_default_level = (0, 40),
                  register_err = None\<rparr> =
     Some \<lparr>ret = 0,
           dev_log = [Dev_info ''FAN5345 level of %d is out of range. Setting to %d.'' [40, 32],
                      Dev_info ''Driver Initialized.'' []],
           device = Some \<lparr>brightness = 32, max_brightness = 32, cur_level = 32,
                           level_gpio = [GpioSet False] @ pulse\<rparr>\<rparr>"
    by code_simp
  have r: "(roll_over ^^ 2) (32 :: c_int) = 30"
    by code_simp
  show ?thesis
    using set_level_above_max_not_rejected
      [of 33 "\<lparr>brightness = 32, max_brightness = 32, cur_level = 32, level_gpio = []\<rparr>" 2
          "\<lparr>kzalloc_ok = True, gpiod_get_err = None, of_default_level = (0, 40),
            register_err = None\<rparr>"
          "\<lparr>ret = 0,
           dev_log = [Dev_info ''FAN5345 level of %d is out of range. Setting to %d.'' [40, 32],
                      Dev_info ''Driver Initialized.'' []],
           device = Some \<lparr>brightness = 32, max_brightness = 32, cur_level = 32,
                           level_gpio = [GpioSet False] @ pulse\<rparr>\<rparr>"
          "\<lparr>brightness = 32, max_brightness = 32, cur_level = 32,
                           level_gpio = [GpioSet False] @ pulse\<rparr>"]
      p r
    by (simp add: word_sle_eq word_sless_alt NUM_STEPS_def)
qed

text \<open>
  C2 as written fails. \<^verbatim>\<open>apply(33)\<close> on a device at rest after attach (believed level
  0, line low) does not return, so no contract violation reaches the caller, and its
  first loop iteration has already emitted a pulse.
\<close>

theorem set_level_above_max_counterexample:
  "apply_target 33 \<lparr>brightness = 0, max_brightness = 32, cur_level = 0, level_gpio = [GpioSet False]\<rparr>
     = None \<and>
   level_gpio (fan5345_set_level_upto 1
       \<lparr>brightness = 33, max_brightness = 32, cur_level = 0, level_gpio = [GpioSet False]\<rparr>)
     = [GpioSet False] @ pulse"
proof -
  have "set_level_loop \<lparr>brightness = 33, max_brightness = 32, cur_level = 0,
                         level_gpio = [GpioSet False]\<rparr> = None"
    by (rule loop_out_of_range_diverges) simp_all
  then show ?thesis
    by (simp add: apply_target_def backlight_update_status_def fan5345_set_level_def
        fan5345_set_level_upto_def MIN_STEP_def word_sless_alt set_level_body_def)
qed

text \<open>
  C3 fails on the code for a negative target. \<^verbatim>\<open>apply(-1)\<close> from believed level 10
  runs the shutdown sequence and then falls into the loop, which can never reach \<open>-1\<close>:
  the call does not return, and after two iterations the line has seen the shutdown
  followed by two pulses, with the believed level at 31.
\<close>

theorem set_level_negative_target_hangs:
  "apply_target (- 1) \<lparr>brightness = 10, max_brightness = 32, cur_level = 10, level_gpio = []\<rparr>
     = None \<and>
   fan5345_set_level_upto 2
       \<lparr>brightness = - 1, max_brightness = 32, cur_level = 10, level_gpio = []\<rparr>
     = \<lparr>brightness = - 1, max_brightness = 32, cur_level = 31,
        level_gpio = [GpioSet False, Mdelay 1] @ pulse @ pulse\<rparr>"
proof -
  have "set_level_loop \<lparr>brightness = - 1, max_brightness = 32, cur_level = 0,
                         level_gpio = [GpioSet False, Mdelay 1]\<rparr> = None"
    by (rule loop_out_of_range_diverges) simp_all
  then have "apply_target (- 1)
      \<lparr>brightness = 10, max_brightness = 32, cur_level = 10, level_gpio = []\<rparr> = None"
    by (simp add: apply_target_def backlight_update_status_def fan5345_set_level_def
        fan5345_disable_def MIN_STEP_def word_sless_alt)
  moreover have "fan5345_set_level_upto 2
       \<lparr>brightness = - 1, max_brightness = 32, cur_level = 10, level_gpio = []\<rparr>
     = \<lparr>brightness = - 1, max_brightness = 32, cur_level = 31,
        level_gpio = [GpioSet False, Mdelay 1] @ pulse @ pulse\<rparr>"
    by code_simp
  ultimately show ?thesis by simp
qed

text \<open>
  C4. The believed level is within \<open>[0, 32]\<close> whenever it is observed at rest, and it
  moves only by pulses and shutdowns. A device that \<^verbatim>\<open>fan5345_probe\<close> has registered is
  the device of attach (believed level 0, line low) after some number \<open>n\<close> of iterations
  of the loop body: its level is within \<open>[0, 32]\<close>, it is 0 stepped \<open>n\<close> times, and the
  line has seen exactly \<open>n\<close> pulses. A call of \<^verbatim>\<open>apply(t)\<close> that starts within \<open>[0, 32]\<close>
  and returns ends within \<open>[0, 32]\<close>, and the device it leaves is the device it found
  (after \<^verbatim>\<open>fan5345_disable\<close>, when the target is below 1) after some number \<open>n\<close> of
  iterations of the loop body: the level has been stepped \<open>n\<close> times and the line has
  seen, after the shutdown if any, exactly \<open>n\<close> pulses. Every sequence of such calls
  that returns ends within \<open>[0, 32]\<close>.
\<close>

theorem cur_level_stays_in_range:
  "(fan5345_probe env = Some res \<and> device res = Some dev \<longrightarrow>
      0 \<le>s cur_level dev \<and> cur_level dev \<le>s NUM_STEPS \<and>
      (\<exists>n. dev = (set_level_body ^^ n)
                   \<lparr>brightness = brightness dev, max_brightness = NUM_STEPS, cur_level = 0,
                     level_gpio = [GpioSet False]\<rparr> \<and>
           cur_level dev = (roll_over ^^ n) 0 \<and>
           level_gpio dev = [GpioSet False] @ pulses n)) \<and>
   (0 \<le>s cur_level bl \<and> cur_level bl \<le>s NUM_STEPS \<and> apply_target t bl = Some (r, bl') \<longrightarrow>
      0 \<le>s cur_level bl' \<and> cur_level bl' \<le>s NUM_STEPS \<and>
      (\<exists>n. bl' = (set_level_body ^^ n)
                   (if t <s MIN_STEP then fan5345_disable (bl\<lparr>brightness := t\<rparr>)
                    else bl\<lparr>brightness := t\<rparr>) \<and>
           cur_level bl' = (roll_over ^^ n) (if t <s MIN_STEP then 0 else cur_level bl) \<and>
           level_gpio bl' =
             level_gpio bl @ (if t <s MIN_STEP then [GpioSet False, Mdelay 1] else []) @
             pulses n)) \<and>
   (0 \<le>s cur_level bl \<and> cur_level bl \<le>s NUM_STEPS \<and> apply_all ts bl = Some bl'' \<longrightarrow>
      0 \<le>s cur_level bl'' \<and> cur_level bl'' \<le>s NUM_STEPS)"
proof (intro conjI impI; (elim conjE)?)
  assume p: "fan5345_probe env = Some res" "device res = Some dev"
  from probe_device [OF p] have pd: "0 \<le> sint (brightness dev)"
    "sint (brightness dev) \<le> 32" "cur_level dev = brightness dev" by blast+
  from pd show "0 \<le>s cur_level dev" "cur_level dev \<le>s NUM_STEPS"
    by (simp_all add: word_sle_eq NUM_STEPS_def)
  let ?b0 = "\<lparr>brightness = brightness dev, max_brightness = NUM_STEPS, cur_level = 0,
              level_gpio = [GpioSet False]\<rparr>"
  from probe_device_trace [OF p] obtain n where n: "dev = (set_level_body ^^ n) ?b0" ..
  have "cur_level ((set_level_body ^^ n) ?b0) = (roll_over ^^ n) 0"
    "level_gpio ((set_level_body ^^ n) ?b0) = [GpioSet False] @ pulses n"
    by (simp_all add: body_iter_fields)
  with n have "dev = (set_level_body ^^ n) ?b0 \<and> cur_level dev = (roll_over ^^ n) 0 \<and>
      level_gpio dev = [GpioSet False] @ pulses n"
    by simp
  then show "\<exists>n. dev = (set_level_body ^^ n) ?b0 \<and> cur_level dev = (roll_over ^^ n) 0 \<and>
      level_gpio dev = [GpioSet False] @ pulses n" ..
next
  assume a: "0 \<le>s cur_level bl" "cur_level bl \<le>s NUM_STEPS" "apply_target t bl = Some (r, bl')"
  let ?bl = "bl\<lparr>brightness := t\<rparr>"
  let ?start = "if t <s MIN_STEP then fan5345_disable ?bl else ?bl"
  from a(3) have s: "fan5345_set_level ?bl = Some (r, bl')"
    by (simp add: apply_target_def backlight_update_status_def)
  have c: "0 \<le> sint (cur_level ?bl)" "sint (cur_level ?bl) \<le> 32"
    using a(1,2) by (simp_all add: word_sle_eq NUM_STEPS_def)
  from set_level_keeps_range [OF c s]
  show "0 \<le>s cur_level bl'" "cur_level bl' \<le>s NUM_STEPS"
    by (simp_all add: word_sle_eq NUM_STEPS_def)
  from set_level_trace [OF s] obtain n where n: "bl' = (set_level_body ^^ n) ?start"
    by auto
  have "cur_level ((set_level_body ^^ n) ?start) =
      (roll_over ^^ n) (if t <s MIN_STEP then 0 else cur_level bl)"
    "level_gpio ((set_level_body ^^ n) ?start) =
      level_gpio bl @ (if t <s MIN_STEP then [GpioSet False, Mdelay 1] else []) @ pulses n"
    by (simp_all add: body_iter_fields fan5345_disable_def)
  with n have "bl' = (set_level_body ^^ n) ?start \<and>
      cur_level bl' = (roll_over ^^ n) (if t <s MIN_STEP then 0 else cur_level bl) \<and>
      level_gpio bl' =
        level_gpio bl @ (if t <s MIN_STEP then [GpioSet False, Mdelay 1] else []) @ pulses n"
    by simp
  then show "\<exists>n. bl' = (set_level_body ^^ n) ?start \<and>
      cur_level bl' = (roll_over ^^ n) (if t <s MIN_STEP then 0 else cur_level bl) \<and>
      level_gpio bl' =
        level_gpio bl @ (if t <s MIN_STEP then [GpioSet False, Mdelay 1] else []) @ pulses n" ..
next
  assume a: "0 \<le>s cur_level bl" "cur_level bl \<le>s NUM_STEPS" "apply_all ts bl = Some bl''"
  then have "0 \<le> sint (cur_level bl)" "sint (cur_level bl) \<le> 32"
    by (simp_all add: word_sle_eq NUM_STEPS_def)
  from apply_all_keeps_range [OF a(3) this]
  show "0 \<le>s cur_level bl''" "cur_level bl'' \<le>s NUM_STEPS"
    by (simp_all add: word_sle_eq NUM_STEPS_def)
qed

theorem cur_level_stays_in_range_witness:
  "fan5345_probe \<lparr>kzalloc_ok = True, gpiod_get_err = None, of_default_level = (0, 7),
                   register_err = None\<rparr> =
     Some \<lparr>ret = 0, dev_log = [Dev_info ''Driver Initialized.'' []],
           device = Some \<lparr>brightness = 7, max_brightness = 32, cur_level = 7,
                           level_gpio = [GpioSet False] @ pulses 26\<rparr>\<rparr> \<and>
   0 \<le>s (7 :: c_int) \<and> (7 :: c_int) \<le>s NUM_STEPS \<and>
   apply_target 0 \<lparr>brightness = 7, max_brightness = 32, cur_level = 7, level_gpio = []\<rparr> =
     Some (0, \<lparr>brightness = 0, max_brightness = 32, cur_level = 0,
               level_gpio = [GpioSet False, Mdelay 1]\<rparr>) \<and>
   apply_all [0, 32] \<lparr>brightness = 7, max_brightness = 32, cur_level = 7, level_gpio = []\<rparr> =
     Some \<lparr>brightness = 32, max_brightness = 32, cur_level = 32,
           level_gpio = [GpioSet False, Mdelay 1] @ pulse\<rparr> \<and>
   0 \<le>s (0 :: c_int) \<and> (0 :: c_int) \<le>s NUM_STEPS \<and>
   0 \<le>s (32 :: c_int) \<and> (32 :: c_int) \<le>s NUM_STEPS"
proof -
  have p: "fan5345_probe \<lparr>kzalloc_ok = True, gpiod_get_err = None, of_default_level = (0, 7),
                   register_err = None\<rparr> =
     Some \<lparr>ret = 0, dev_log = [Dev_info ''Driver Initialized.'' []],
           device = Some \<lparr>brightness = 7, max_brightness = 32, cur_level = 7,
                           level_gpio = [GpioSet False] @ pulses 26\<rparr>\<rparr>"
    by code_simp
  have a: "apply_target 0 \<lparr>brightness = 7, max_brightness = 32, cur_level = 7, level_gpio = []\<rparr> =
     Some (0, \<lparr>brightness = 0, max_brightness = 32, cur_level = 0,
               level_gpio = [GpioSet False, Mdelay 1]\<rparr>)"
    by code_simp
  have b: "apply_all [0, 32] \<lparr>brightness = 7, max_brightness = 32, cur_level = 7, level_gpio = []\<rparr> =
     Some \<lparr>brightness = 32, max_brightness = 32, cur_level = 32,
           level_gpio = [GpioSet False, Mdelay 1] @ pulse\<rparr>"
    by code_simp
  show ?thesis
    using cur_level_stays_in_range
      [where env = "\<lparr>kzalloc_ok = True, gpiod_get_err = None, of_default_level = (0, 7),
            register_err = None\<rparr>"
         and res = "\<lparr>ret = 0, dev_log = [Dev_info ''Driver Initialized.'' []],
           device = Some \<lparr>brightness = 7, max_brightness = 32, cur_level = 7,
                           level_gpio = [GpioSet False] @ pulses 26\<rparr>\<rparr>"
         and dev = "\<lparr>brightness = 7, max_brightness = 32, cur_level = 7,
                           level_gpio = [GpioSet False] @ pulses 26\<rparr>"
         and bl = "\<lparr>brightness = 7, max_brightness = 32, cur_level = 7, level_gpio = []\<rparr>"
         and t = 0 and r = 0
         and bl' = "\<lparr>brightness = 0, max_brightness = 32, cur_level = 0,
               level_gpio = [GpioSet False, Mdelay 1]\<rparr>"
         and ts = "[0, 32]"
         and bl'' = "\<lparr>brightness = 32, max_brightness = 32, cur_level = 32,
           level_gpio = [GpioSet False, Mdelay 1] @ pulse\<rparr>"]
      p a b
    by simp
qed

text \<open>
  C5. Whenever \<^verbatim>\<open>apply(x)\<close> returns, a second \<^verbatim>\<open>apply(x)\<close> right after it returns 0 and
  changes nothing but the history of the line, to which it adds no pulse: nothing at
  all for a lit target, the shutdown (line low, 1 ms) for the off target. The believed
  level is the same before and after the second call. For every level \<open>x\<close> in \<open>[0, 32]\<close>
  and every believed level in \<open>[0, 32]\<close> the first call does return.
\<close>
theorem apply_twice_no_pulses:
  "(apply_target x bl = Some (r, bl1) \<longrightarrow>
      apply_target x bl1 =
        Some (0, bl1\<lparr>level_gpio := level_gpio bl1 @
                       (if x <s MIN_STEP then [GpioSet False, Mdelay 1] else [])\<rparr>)) \<and>
   (0 \<le>s x \<and> x \<le>s NUM_STEPS \<and> 0 \<le>s cur_level bl \<and> cur_level bl \<le>s NUM_STEPS \<longrightarrow>
      (\<exists>bl1. apply_target x bl = Some (0, bl1)))"
proof (intro conjI impI)
  assume a: "apply_target x bl = Some (r, bl1)"
  note f = apply_target_result(2,3) [OF a]
  from apply_target_result(5) [OF a] obtain n where
    n: "cur_level bl1 = (roll_over ^^ n) (if x <s MIN_STEP then 0 else cur_level bl)" ..
  have same: "bl1\<lparr>brightness := x\<rparr> = bl1" using f(2) by simp
  show "apply_target x bl1 =
        Some (0, bl1\<lparr>level_gpio := level_gpio bl1 @
                       (if x <s MIN_STEP then [GpioSet False, Mdelay 1] else [])\<rparr>)"
  proof (cases "x <s MIN_STEP")
    case False
    with f show ?thesis
      by (simp add: apply_target_def backlight_update_status_def same fan5345_set_level_def
          loop_exit)
  next
    case True
    with n have "cur_level bl1 = (roll_over ^^ n) 0" by simp
    moreover have "0 \<le> sint ((roll_over ^^ n) (0 :: c_int))"
      using roll_iter_range [of 0 n] by simp
    ultimately have "0 \<le> sint x" using f(1) by simp
    moreover from True have "sint x < 1" by (simp add: word_sless_alt MIN_STEP_def)
    ultimately have "sint x = 0" by simp
    then have x0: "x = 0" by (metis signed_word_eqI sint_0)
    have c0: "cur_level bl1 = 0" and b0: "brightness bl1 = 0" using f x0 by simp_all
    have "bl1\<lparr>brightness := 0, cur_level := 0,
              level_gpio := level_gpio bl1 @ [GpioSet False, Mdelay 1]\<rparr> =
      bl1\<lparr>level_gpio := level_gpio bl1 @ [GpioSet False, Mdelay 1]\<rparr>"
      by (rule backlight_device.equality) (simp_all add: c0 b0)
    moreover have "apply_target 0 bl1 =
      Some (0, bl1\<lparr>brightness := 0, cur_level := 0,
                    level_gpio := level_gpio bl1 @ [GpioSet False, Mdelay 1]\<rparr>)"
      by (simp add: apply_target_def backlight_update_status_def set_level_off)
    ultimately show ?thesis using True x0 by simp
  qed
next
  assume a: "0 \<le>s x \<and> x \<le>s NUM_STEPS \<and> 0 \<le>s cur_level bl \<and> cur_level bl \<le>s NUM_STEPS"
  then have r: "0 \<le> sint x" "sint x \<le> 32" "0 \<le> sint (cur_level bl)" "sint (cur_level bl) \<le> 32"
    by (simp_all add: word_sle_eq NUM_STEPS_def)
  show "\<exists>bl1. apply_target x bl = Some (0, bl1)"
  proof (cases "x = 0")
    case True
    then show ?thesis
      by (simp add: apply_target_def backlight_update_status_def set_level_off)
  next
    case False
    then have "sint x \<noteq> 0" by (metis signed_word_eqI sint_0)
    with r have "1 \<le> sint x" by simp
    with r show ?thesis
      by (simp add: apply_target_def backlight_update_status_def set_level_lit)
  qed
qed

theorem apply_twice_no_pulses_witness:
  "apply_target 30 \<lparr>brightness = 32, max_brightness = 32, cur_level = 32, level_gpio = []\<rparr> =
     Some (0, \<lparr>brightness = 30, max_brightness = 32, cur_level = 30, level_gpio = pulse @ pulse\<rparr>) \<and>
   apply_target 30 \<lparr>brightness = 30, max_brightness = 32, cur_level = 30, level_gpio = pulse @ pulse\<rparr> =
     Some (0, \<lparr>brightness = 30, max_brightness = 32, cur_level = 30, level_gpio = pulse @ pulse\<rparr>) \<and>
   0 \<le>s (30 :: c_int) \<and> (30 :: c_int) \<le>s NUM_STEPS \<and>
   0 \<le>s (32 :: c_int) \<and> (32 :: c_int) \<le>s NUM_STEPS"
proof -
  have a: "apply_target 30
      \<lparr>brightness = 32, max_brightness = 32, cur_level = 32, level_gpio = []\<rparr> =
     Some (0, \<lparr>brightness = 30, max_brightness = 32, cur_level = 30, level_gpio = pulse @ pulse\<rparr>)"
    by code_simp
  show ?thesis
    using apply_twice_no_pulses
      [of 30 "\<lparr>brightness = 32, max_brightness = 32, cur_level = 32, level_gpio = []\<rparr>" 0
          "\<lparr>brightness = 30, max_brightness = 32, cur_level = 30, level_gpio = pulse @ pulse\<rparr>"]
      a
    by (simp add: word_sle_eq word_sless_alt NUM_STEPS_def MIN_STEP_def)
qed

text \<open>
  C6. One iteration of the loop moves the believed level as the specification's
  \<^verbatim>\<open>decrement_with_wrap\<close> does: one less, and 32 in place of any result that is at most 0.
  This holds for every level but the least \<^verbatim>\<open>int\<close>, where the subtraction overflows. From
  level 1 the next level is 32, not 0.
\<close>
theorem body_decrements_with_wrap:
  assumes "sint (cur_level bl) \<noteq> - (2 ^ 31)"
  shows "sint (cur_level (set_level_body bl)) = decrement_with_wrap_spec (sint (cur_level bl)) \<and>
         (cur_level bl = 1 \<longrightarrow>
            cur_level (set_level_body bl) = NUM_STEPS \<and> cur_level (set_level_body bl) \<noteq> 0)"
proof -
  have "sint (roll_over (cur_level bl)) = decrement_with_wrap_spec (sint (cur_level bl))"
    using assms by (simp add: sint_roll_over decrement_with_wrap_spec_def MAX_STEP_def)
  moreover have "roll_over 1 = NUM_STEPS"
    by (simp add: roll_over_def DIR_def NUM_STEPS_def)
  ultimately show ?thesis by (simp add: set_level_body_def NUM_STEPS_def)
qed

theorem body_decrements_with_wrap_witness:
  "sint (1 :: c_int) \<noteq> - (2 ^ 31) \<and>
   sint (cur_level (set_level_body
      \<lparr>brightness = 32, max_brightness = 32, cur_level = 1, level_gpio = []\<rparr>)) =
     decrement_with_wrap_spec 1 \<and>
   decrement_with_wrap_spec 1 = 32 \<and>
   cur_level (set_level_body
      \<lparr>brightness = 32, max_brightness = 32, cur_level = 1, level_gpio = []\<rparr>) = NUM_STEPS \<and>
   NUM_STEPS \<noteq> (0 :: c_int)"
  using body_decrements_with_wrap
    [of "\<lparr>brightness = 32, max_brightness = 32, cur_level = 1, level_gpio = []\<rparr>"]
  by (simp add: decrement_with_wrap_spec_def MAX_STEP_def NUM_STEPS_def)

text \<open>
  C7. When the platform provides memory, the line and the registration, and the
  configured default level is above 32, \<^verbatim>\<open>fan5345_probe\<close> returns 0, logs (through
  \<^verbatim>\<open>dev_info\<close>) that the level is out of range and set to 32, and registers a device with
  target and believed level 32 whose line has seen, after the initial low, exactly one
  pulse: from believed level 0 the first step rolls over to 32.
\<close>
theorem probe_default_above_max:
  assumes "kzalloc_ok env" "gpiod_get_err env = None" "register_err env = None"
    and "of_default_level env = (0, d)" "NUM_STEPS < d"
  shows "fan5345_probe env =
     Some \<lparr>ret = 0,
           dev_log = [Dev_info ''FAN5345 level of %d is out of range. Setting to %d.''
                        [d, NUM_STEPS],
                      Dev_info ''Driver Initialized.'' []],
           device = Some \<lparr>brightness = NUM_STEPS, max_brightness = NUM_STEPS,
                           cur_level = NUM_STEPS, level_gpio = [GpioSet False] @ pulse\<rparr>\<rparr>"
proof -
  let ?bl = "\<lparr>brightness = NUM_STEPS, max_brightness = NUM_STEPS, cur_level = 0,
              level_gpio = [GpioSet False]\<rparr>"
  have "fan5345_set_level ?bl =
     Some (0, ?bl\<lparr>cur_level := brightness ?bl,
                   level_gpio := level_gpio ?bl @
                     pulses (pulses_needed (cur_level ?bl) (brightness ?bl))\<rparr>)"
    by (rule set_level_lit) (simp_all add: NUM_STEPS_def)
  moreover have "pulses (pulses_needed 0 NUM_STEPS) = pulse"
    by (simp add: pulses_needed_def NUM_STEPS_def pulses_def)
  ultimately have "fan5345_set_level ?bl =
     Some (0, \<lparr>brightness = NUM_STEPS, max_brightness = NUM_STEPS,
               cur_level = NUM_STEPS, level_gpio = [GpioSet False] @ pulse\<rparr>)"
    by simp
  moreover have "NUM_STEPS \<noteq> 0" by (simp add: NUM_STEPS_def)
  ultimately show ?thesis
    using assms by (simp add: fan5345_probe_def backlight_update_status_def)
qed

theorem probe_default_above_max_witness:
  "kzalloc_ok \<lparr>kzalloc_ok = True, gpiod_get_err = None, of_default_level = (0, 40),
               register_err = None\<rparr> \<and>
   NUM_STEPS < (40 :: c_uint) \<and>
   fan5345_probe \<lparr>kzalloc_ok = True, gpiod_get_err = None, of_default_level = (0, 40),
                   register_err = None\<rparr> =
     Some \<lparr>ret = 0,
           dev_log = [Dev_info ''FAN5345 level of %d is out of range. Setting to %d.'' [40, 32],
                      Dev_info ''Driver Initialized.'' []],
           device = Some \<lparr>brightness = 32, max_brightness = 32, cur_level = 32,
                           level_gpio = [GpioSet False, GpioSet False, Ndelay 500,
                                         GpioSet True, Ndelay 500]\<rparr>\<rparr>"
  using probe_default_above_max
    [of "\<lparr>kzalloc_ok = True, gpiod_get_err = None, of_default_level = (0, 40),
          register_err = None\<rparr>" 40]
  by (simp add: NUM_STEPS_def pulse_def)

text \<open>
  C8. \<^verbatim>\<open>fan5345_get_level\<close> does not depend on the believed level: it gives the same
  answer whatever \<^verbatim>\<open>cur_level\<close> holds. After every sequence of requests that has
  returned it answers the target of the last request; and every sequence of requests
  with targets in \<open>[0, 32]\<close>, started at a believed level in \<open>[0, 32]\<close>, returns.
\<close>
theorem get_level_is_last_target:
  "fan5345_get_level (bl\<lparr>cur_level := c\<rparr>) = fan5345_get_level bl \<and>
   (apply_all (ts @ [t]) bl = Some bl' \<longrightarrow> fan5345_get_level bl' = t) \<and>
   ((\<forall>u \<in> set (ts @ [t]). 0 \<le>s u \<and> u \<le>s NUM_STEPS) \<and>
    0 \<le>s cur_level bl \<and> cur_level bl \<le>s NUM_STEPS \<longrightarrow>
      (\<exists>bl'. apply_all (ts @ [t]) bl = Some bl'))"
proof (intro conjI impI)
  show "fan5345_get_level (bl\<lparr>cur_level := c\<rparr>) = fan5345_get_level bl"
    by (simp add: fan5345_get_level_def)
next
  assume "apply_all (ts @ [t]) bl = Some bl'"
  then obtain bl1 r where "apply_target t bl1 = Some (r, bl')"
    by (auto simp add: apply_all_snoc split: option.splits)
  from apply_target_result(3) [OF this] show "fan5345_get_level bl' = t"
    by (simp add: fan5345_get_level_def)
next
  assume "(\<forall>u \<in> set (ts @ [t]). 0 \<le>s u \<and> u \<le>s NUM_STEPS) \<and>
    0 \<le>s cur_level bl \<and> cur_level bl \<le>s NUM_STEPS"
  then have "\<forall>u \<in> set (ts @ [t]). 0 \<le> sint u \<and> sint u \<le> 32"
    "0 \<le> sint (cur_level bl)" "sint (cur_level bl) \<le> 32"
    by (simp_all add: word_sle_eq NUM_STEPS_def)
  then show "\<exists>bl'. apply_all (ts @ [t]) bl = Some bl'"
    by (rule apply_all_in_range)
qed

theorem get_level_is_last_target_witness:
  "apply_all ([3, 0] @ [32]) \<lparr>brightness = 0, max_brightness = 32, cur_level = 0, level_gpio = []\<rparr> =
     Some \<lparr>brightness = 32, max_brightness = 32, cur_level = 32,
           level_gpio = pulses 30 @ [GpioSet False, Mdelay 1] @ pulse\<rparr> \<and>
   fan5345_get_level \<lparr>brightness = 32, max_brightness = 32, cur_level = 32,
           level_gpio = pulses 30 @ [GpioSet False, Mdelay 1] @ pulse\<rparr> = 32 \<and>
   0 \<le>s (3 :: c_int) \<and> (3 :: c_int) \<le>s NUM_STEPS \<and>
   0 \<le>s (0 :: c_int) \<and> (0 :: c_int) \<le>s NUM_STEPS \<and>
   0 \<le>s (32 :: c_int) \<and> (32 :: c_int) \<le>s NUM_STEPS"
proof -
  have a: "apply_all ([3, 0] @ [32])
      \<lparr>brightness = 0, max_brightness = 32, cur_level = 0, level_gpio = []\<rparr> =
     Some \<lparr>brightness = 32, max_brightness = 32, cur_level = 32,
           level_gpio = pulses 30 @ [GpioSet False, Mdelay 1] @ pulse\<rparr>"
    by code_simp
  show ?thesis
    using get_level_is_last_target
      [where bl = "\<lparr>brightness = 0, max_brightness = 32, cur_level = 0, level_gpio = []\<rparr>"
         and c = 7 and ts = "[3, 0]" and t = 32
         and bl' = "\<lparr>brightness = 32, max_brightness = 32, cur_level = 32,
           level_gpio = pulses 30 @ [GpioSet False, Mdelay 1] @ pulse\<rparr>"]
      a
    by (simp add: word_sle_eq NUM_STEPS_def)
qed

text \<open>
  C9. Whenever \<^verbatim>\<open>fan5345_set_level\<close> returns, it returns 0, for every target and every
  state of the device: it has no error path.
\<close>
theorem set_level_returns_zero:
  "fan5345_set_level bl = Some (r, bl') \<Longrightarrow> r = 0"
  by (auto simp add: fan5345_set_level_def Let_def split: option.splits)

theorem set_level_returns_zero_witness:
  "fan5345_set_level \<lparr>brightness = 30, max_brightness = 32, cur_level = 32, level_gpio = []\<rparr> =
     Some (0, \<lparr>brightness = 30, max_brightness = 32, cur_level = 30, level_gpio = pulse @ pulse\<rparr>)"
proof -
  have a: "fan5345_set_level
      \<lparr>brightness = 30, max_brightness = 32, cur_level = 32, level_gpio = []\<rparr> =
    Some (0, \<lparr>brightness = 30, max_brightness = 32, cur_level = 30,
              level_gpio = pulse @ pulse\<rparr>)"
    by code_simp
  show ?thesis
    using set_level_returns_zero
      [of "\<lparr>brightness = 30, max_brightness = 32, cur_level = 32, level_gpio = []\<rparr>" 0
          "\<lparr>brightness = 30, max_brightness = 32, cur_level = 30,
            level_gpio = pulse @ pulse\<rparr>"]
      a
    by simp
qed

text \<open>
  C10. When the platform provides memory and the line but \<^verbatim>\<open>of_property_read_u32\<close>
  fails for \<^verbatim>\<open>"default-level"\<close>, \<^verbatim>\<open>fan5345_probe\<close> logs the parse error, returns the
  error code of the read and registers no device, whatever the registration would have
  answered.
\<close>
theorem probe_parse_error_is_fatal:
  assumes "kzalloc_ok env" "gpiod_get_err env = None"
    and "of_default_level env = (err, d)" "err \<noteq> 0"
  shows "fan5345_probe env =
     Some \<lparr>ret = err, dev_log = [Dev_err ''Can't parse the level property'' []],
           device = None\<rparr>"
  using assms by (simp add: fan5345_probe_def)

theorem probe_parse_error_is_fatal_witness:
  "kzalloc_ok \<lparr>kzalloc_ok = True, gpiod_get_err = None, of_default_level = (- 22, 7),
               register_err = None\<rparr> \<and>
   (- 22 :: c_int) \<noteq> 0 \<and>
   fan5345_probe \<lparr>kzalloc_ok = True, gpiod_get_err = None, of_default_level = (- 22, 7),
                   register_err = None\<rparr> =
     Some \<lparr>ret = - 22, dev_log = [Dev_err ''Can't parse the level property'' []],
           device = None\<rparr>"
  using probe_parse_error_is_fatal
    [of "\<lparr>kzalloc_ok = True, gpiod_get_err = None, of_default_level = (- 22, 7),
          register_err = None\<rparr>" "- 22" 7]
  by simp

end
